theory Spec2Isabelle
  imports Main "HOL-Library.Sublist"
begin

section \<open>Data model (types.ts)\<close>

text \<open>
  JavaScript strings are modelled as \<open>string\<close>. An optional property
  (\<open>endpoint?: string\<close>) is an \<open>option\<close>: \<open>None\<close> is \<open>undefined\<close>. Numbers that the
  program only counts with (\<open>totalTarget\<close>, indices, \<open>Date.now()\<close>) are \<open>nat\<close>;
  \<open>progress\<close> is an \<open>int\<close>.
\<close>

datatype ModelType = GEMINI | OPENAI_COMPATIBLE

record ModelConfig =
  mc_id :: string
  mc_name :: string
  mc_type :: ModelType
  endpoint :: "string option"
  apiKey :: "string option"
  modelId :: string

record GeneratedImage =
  img_id :: string
  img_url :: string
  img_prompt :: string
  img_timestamp :: nat
  img_tags :: "string list"

datatype Status = Idle | Generating | Completed | Failed | Stopped

record Session =
  s_id :: string
  s_name :: string
  basePrompt :: string
  referenceImages :: "string list"
  generatedImages :: "GeneratedImage list"
  generatedPrompts :: "string list"
  createdAt :: nat
  status :: Status
  totalTarget :: nat
  progress :: int
  logs :: "string list"

section \<open>JavaScript values the code relies on\<close>

text \<open>
  Truthiness of an optional string, as \<open>if (x)\<close> and \<open>!x\<close> read it: \<open>undefined\<close>
  and the empty string are falsy, every other string is truthy.
\<close>

fun truthy :: "string option \<Rightarrow> bool" where
  "truthy None = False"
| "truthy (Some []) = False"
| "truthy (Some (c # cs)) = True"

text \<open>The decimal numeral a template literal \<open>${n}\<close> prints for a natural number.\<close>

function show_nat :: "nat \<Rightarrow> string" where
  "show_nat n =
     (if n < 10 then [char_of (48 + n)]
      else show_nat (n div 10) @ [char_of (48 + n mod 10)])"
  by pat_completeness auto
termination
  by (relation "measure (\<lambda>n. n)") auto

declare show_nat.simps [simp del]

section \<open>Prompt expansion (services/api.ts)\<close>

subsection \<open>extractJson\<close>

text \<open>
  \<open>text.match(/\{[\s\S]*\}|\[[\s\S]*\]/)\<close>. The regular expression has no flags, so
  \<open>match\<close> returns the match at the leftmost start position where one of the two
  alternatives matches. An alternative is an opening bracket, the greedy \<open>[\s\S]*\<close>
  (any characters) and the closing bracket: at a start position it matches iff the
  opening bracket stands there and the closing bracket occurs somewhere after it, and
  the match then runs through the last occurrence of the closing bracket in the text.

  \<open>upto_last c s\<close> is the longest prefix of \<open>s\<close> that ends in \<open>c\<close>.
\<close>

fun upto_last :: "char \<Rightarrow> string \<Rightarrow> string option" where
  "upto_last c [] = None"
| "upto_last c (x # xs) =
     (case upto_last c xs of
        Some ys \<Rightarrow> Some (x # ys)
      | None \<Rightarrow> if x = c then Some [x] else None)"

fun jsonMatch :: "string \<Rightarrow> string option" where
  "jsonMatch [] = None"
| "jsonMatch (x # xs) =
     (case (if x = CHR ''{'' then upto_last (CHR ''}'') xs else None) of
        Some m \<Rightarrow> Some (x # m)
      | None \<Rightarrow>
         (case (if x = CHR ''['' then upto_last (CHR '']'') xs else None) of
            Some m \<Rightarrow> Some (x # m)
          | None \<Rightarrow> jsonMatch xs))"

definition extractJson :: "string \<Rightarrow> string" where
  "extractJson text = (case jsonMatch text of Some m \<Rightarrow> m | None \<Rightarrow> text)"

subsection \<open>JSON.parse\<close>

text \<open>
  \<open>JSON.parse\<close> is a built-in of the language; it is modelled by a recursive-descent
  parser of the JSON grammar (ECMA-404). A number keeps its lexeme. A string value is
  the sequence of its characters, a \<open>\uXXXX\<close> escape contributing the UTF-8 bytes of its
  code unit. The message of the \<open>SyntaxError\<close> that \<open>JSON.parse\<close> throws differs between
  engines; the model uses one fixed text for it.
\<close>

datatype json =
    JNull
  | JBool bool
  | JNumber string
  | JString string
  | JArray "json list"
  | JObject "(string \<times> json) list"

definition is_ws :: "char \<Rightarrow> bool" where
  "is_ws c = (c = CHR '' '' \<or> c = CHR 0x09 \<or> c = CHR 0x0A \<or> c = CHR 0x0D)"

definition skip_ws :: "string \<Rightarrow> string" where
  "skip_ws s = dropWhile is_ws s"

definition is_digit :: "char \<Rightarrow> bool" where
  "is_digit c = (48 \<le> (of_char c :: nat) \<and> (of_char c :: nat) \<le> 57)"

definition hex_digit :: "char \<Rightarrow> nat option" where
  "hex_digit c =
     (let n = (of_char c :: nat) in
      if 48 \<le> n \<and> n \<le> 57 then Some (n - 48)
      else if 65 \<le> n \<and> n \<le> 70 then Some (n - 55)
      else if 97 \<le> n \<and> n \<le> 102 then Some (n - 87)
      else None)"

fun hex4 :: "string \<Rightarrow> nat option" where
  "hex4 [a, b, c, d] =
     (case (hex_digit a, hex_digit b, hex_digit c, hex_digit d) of
        (Some x, Some y, Some z, Some w) \<Rightarrow> Some (((x * 16 + y) * 16 + z) * 16 + w)
      | _ \<Rightarrow> None)"
| "hex4 _ = None"

definition utf8 :: "nat \<Rightarrow> string" where
  "utf8 u =
     (if u < 128 then [char_of u]
      else if u < 2048 then [char_of (192 + u div 64), char_of (128 + u mod 64)]
      else [char_of (224 + u div 4096), char_of (128 + (u div 64) mod 64),
            char_of (128 + u mod 64)])"

definition escape_char :: "char \<Rightarrow> char option" where
  "escape_char e =
     (if e = CHR 0x22 then Some (CHR 0x22)
      else if e = CHR 0x5C then Some (CHR 0x5C)
      else if e = CHR ''/'' then Some (CHR ''/'')
      else if e = CHR ''b'' then Some (CHR 0x08)
      else if e = CHR ''f'' then Some (CHR 0x0C)
      else if e = CHR ''n'' then Some (CHR 0x0A)
      else if e = CHR ''r'' then Some (CHR 0x0D)
      else if e = CHR ''t'' then Some (CHR 0x09)
      else None)"

text \<open>The characters of a string after its opening quote, and the text after its closing quote.\<close>

fun parse_chars :: "string \<Rightarrow> (string \<times> string) option" where
  "parse_chars [] = None"
| "parse_chars (c # cs) =
     (if c = CHR 0x22 then Some ([], cs)
      else if c = CHR 0x5C then
        (case cs of
           [] \<Rightarrow> None
         | e # es \<Rightarrow>
            if e = CHR ''u'' then
              (case hex4 (take 4 es) of
                 None \<Rightarrow> None
               | Some u \<Rightarrow>
                  (case parse_chars (drop 4 es) of
                     None \<Rightarrow> None
                   | Some (str, rest) \<Rightarrow> Some (utf8 u @ str, rest)))
            else
              (case escape_char e of
                 None \<Rightarrow> None
               | Some ch \<Rightarrow>
                  (case parse_chars es of
                     None \<Rightarrow> None
                   | Some (str, rest) \<Rightarrow> Some (ch # str, rest))))
      else if (of_char c :: nat) < 32 then None
      else
        (case parse_chars cs of
           None \<Rightarrow> None
         | Some (str, rest) \<Rightarrow> Some (c # str, rest)))"

definition digits1 :: "string \<Rightarrow> (string \<times> string) option" where
  "digits1 s =
     (case takeWhile is_digit s of
        [] \<Rightarrow> None
      | d # ds \<Rightarrow> Some (d # ds, dropWhile is_digit s))"

definition parse_int_part :: "string \<Rightarrow> (string \<times> string) option" where
  "parse_int_part s =
     (case s of
        [] \<Rightarrow> None
      | c # cs \<Rightarrow> if c = CHR ''0'' then Some ([c], cs) else digits1 s)"

definition parse_frac :: "string \<Rightarrow> (string \<times> string) option" where
  "parse_frac s =
     (case s of
        [] \<Rightarrow> Some ([], s)
      | c # cs \<Rightarrow>
         if c = CHR ''.'' then
           (case digits1 cs of None \<Rightarrow> None | Some (ds, r) \<Rightarrow> Some (c # ds, r))
         else Some ([], s))"

definition parse_exp :: "string \<Rightarrow> (string \<times> string) option" where
  "parse_exp s =
     (case s of
        [] \<Rightarrow> Some ([], s)
      | c # cs \<Rightarrow>
         if c = CHR ''e'' \<or> c = CHR ''E'' then
           (case cs of
              [] \<Rightarrow> None
            | g # gs \<Rightarrow>
               if g = CHR ''+'' \<or> g = CHR ''-'' then
                 (case digits1 gs of None \<Rightarrow> None | Some (ds, r) \<Rightarrow> Some (c # g # ds, r))
               else
                 (case digits1 cs of None \<Rightarrow> None | Some (ds, r) \<Rightarrow> Some (c # ds, r)))
         else Some ([], s))"

definition parse_number :: "string \<Rightarrow> (string \<times> string) option" where
  "parse_number s =
     (let (sign, s1) =
            (case s of
               [] \<Rightarrow> ([], s)
             | c # cs \<Rightarrow> if c = CHR ''-'' then ([c], cs) else ([], s))
      in case parse_int_part s1 of
           None \<Rightarrow> None
         | Some (i, s2) \<Rightarrow>
            (case parse_frac s2 of
               None \<Rightarrow> None
             | Some (f, s3) \<Rightarrow>
                (case parse_exp s3 of
                   None \<Rightarrow> None
                 | Some (e, s4) \<Rightarrow> Some (sign @ i @ f @ e, s4))))"

definition parse_literal :: "string \<Rightarrow> (json \<times> string) option" where
  "parse_literal s =
     (if take 4 s = ''true'' then Some (JBool True, drop 4 s)
      else if take 5 s = ''false'' then Some (JBool False, drop 5 s)
      else if take 4 s = ''null'' then Some (JNull, drop 4 s)
      else (case parse_number s of None \<Rightarrow> None | Some (n, r) \<Rightarrow> Some (JNumber n, r)))"

text \<open>
  Values, the elements of an array after its opening bracket and the members of an
  object after its opening brace. The first argument bounds the number of nested calls;
  every second call at the latest consumes a character, so \<open>JSON_parse\<close> starts with
  twice the length of the text and the bound is never the reason for a failure.
\<close>

fun parse_value :: "nat \<Rightarrow> string \<Rightarrow> (json \<times> string) option"
  and parse_elements :: "nat \<Rightarrow> string \<Rightarrow> (json list \<times> string) option"
  and parse_members :: "nat \<Rightarrow> string \<Rightarrow> ((string \<times> json) list \<times> string) option" where
  "parse_value 0 s = None"
| "parse_value (Suc n) s =
     (case s of
        [] \<Rightarrow> None
      | c # cs \<Rightarrow>
         if c = CHR ''{'' then
           (case skip_ws cs of
              [] \<Rightarrow> None
            | d # ds \<Rightarrow>
               if d = CHR ''}'' then Some (JObject [], ds)
               else (case parse_members n (d # ds) of
                       None \<Rightarrow> None
                     | Some (kvs, r) \<Rightarrow> Some (JObject kvs, r)))
         else if c = CHR ''['' then
           (case skip_ws cs of
              [] \<Rightarrow> None
            | d # ds \<Rightarrow>
               if d = CHR '']'' then Some (JArray [], ds)
               else (case parse_elements n (d # ds) of
                       None \<Rightarrow> None
                     | Some (vs, r) \<Rightarrow> Some (JArray vs, r)))
         else if c = CHR 0x22 then
           (case parse_chars cs of
              None \<Rightarrow> None
            | Some (str, r) \<Rightarrow> Some (JString str, r))
         else parse_literal s)"
| "parse_elements 0 s = None"
| "parse_elements (Suc n) s =
     (case parse_value n s of
        None \<Rightarrow> None
      | Some (v, r) \<Rightarrow>
         (case skip_ws r of
            [] \<Rightarrow> None
          | d # ds \<Rightarrow>
             if d = CHR '','' then
               (case parse_elements n (skip_ws ds) of
                  None \<Rightarrow> None
                | Some (vs, r') \<Rightarrow> Some (v # vs, r'))
             else if d = CHR '']'' then Some ([v], ds)
             else None))"
| "parse_members 0 s = None"
| "parse_members (Suc n) s =
     (case s of
        [] \<Rightarrow> None
      | c # cs \<Rightarrow>
         if c = CHR 0x22 then
           (case parse_chars cs of
              None \<Rightarrow> None
            | Some (k, r) \<Rightarrow>
               (case skip_ws r of
                  [] \<Rightarrow> None
                | d # ds \<Rightarrow>
                   if d = CHR '':'' then
                     (case parse_value n (skip_ws ds) of
                        None \<Rightarrow> None
                      | Some (v, r2) \<Rightarrow>
                         (case skip_ws r2 of
                            [] \<Rightarrow> None
                          | e # es \<Rightarrow>
                             if e = CHR '','' then
                               (case parse_members n (skip_ws es) of
                                  None \<Rightarrow> None
                                | Some (kvs, r3) \<Rightarrow> Some ((k, v) # kvs, r3))
                             else if e = CHR ''}'' then Some ([(k, v)], es)
                             else None))
                   else None))
         else None)"

definition JSON_parse :: "string \<Rightarrow> string + json" where
  "JSON_parse text =
     (case parse_value (2 * length text + 2) (skip_ws text) of
        None \<Rightarrow> Inl ''Unexpected token in JSON''
      | Some (v, r) \<Rightarrow>
         if skip_ws r = [] then Inr v else Inl ''Unexpected token in JSON'')"

subsection \<open>generateDiversePrompts\<close>

text \<open>
  The answer of the text-generation service: \<open>TextRejects m\<close> when
  \<open>ai.models.generateContent\<close> throws an error with message \<open>m\<close>, \<open>TextResponse t\<close> when
  it returns a response whose \<open>text\<close> property is \<open>t\<close>.
\<close>

datatype TextReply = TextRejects string | TextResponse "string option"

text \<open>\<open>result.k\<close> for a parsed value: the last member named \<open>k\<close> of an object, \<open>undefined\<close> otherwise.\<close>

definition property :: "string \<Rightarrow> json \<Rightarrow> json option" where
  "property k j = (case j of JObject kvs \<Rightarrow> map_of (rev kvs) k | _ \<Rightarrow> None)"

text \<open>
  The function returns \<open>Inl m\<close> when it throws an error with message \<open>m\<close> and
  \<open>Inr result\<close> when it returns the parsed value. \<open>env_key\<close> is \<open>process.env.API_KEY\<close>.
  The base prompt, the count and the number of reference images only shape the request;
  what the service answers to it is the argument \<open>reply\<close>. Reading \<open>.prompts\<close> of
  \<open>null\<close> throws a \<open>TypeError\<close>, whose message the model fixes as it does for
  \<open>JSON.parse\<close>.
\<close>

definition generateDiversePrompts ::
  "string option \<Rightarrow> string \<Rightarrow> nat \<Rightarrow> nat \<Rightarrow> TextReply \<Rightarrow> string + json" where
  "generateDiversePrompts env_key base count refCount reply =
     (if \<not> truthy env_key then Inl ''Google GenAI API Key not found in environment.''
      else
        case reply of
          TextRejects m \<Rightarrow> Inl m
        | TextResponse t \<Rightarrow>
           (case t of
              Some (c # cs) \<Rightarrow>
               (case JSON_parse (extractJson (c # cs)) of
                  Inl m \<Rightarrow> Inl m
                | Inr result \<Rightarrow>
                   (case result of
                      JNull \<Rightarrow> Inl ''Cannot read properties of null''
                    | _ \<Rightarrow>
                      (case property ''prompts'' result of
                         Some (JArray ps) \<Rightarrow> Inr result
                       | _ \<Rightarrow> Inl ''Invalid prompt array in response'')))
            | _ \<Rightarrow> Inl ''Empty response from AI''))"

text \<open>
  The declared type of the result is \<open>{ prompts: string[], aspectRatio: string }\<close>.
  \<open>as_expansion\<close> reads a parsed value at that type; it is \<open>None\<close> for a value that
  does not have it.
\<close>

record Expansion =
  ex_prompts :: "string list"
  ex_aspectRatio :: string

fun json_strings :: "json list \<Rightarrow> string list option" where
  "json_strings [] = Some []"
| "json_strings (JString s # js) = map_option ((#) s) (json_strings js)"
| "json_strings (_ # js) = None"

definition as_expansion :: "json \<Rightarrow> Expansion option" where
  "as_expansion j =
     (case (property ''prompts'' j, property ''aspectRatio'' j) of
        (Some (JArray ps), Some (JString ar)) \<Rightarrow>
          map_option (\<lambda>strs. \<lparr> ex_prompts = strs, ex_aspectRatio = ar \<rparr>) (json_strings ps)
      | _ \<Rightarrow> None)"

section \<open>Image synthesis (services/api.ts)\<close>

subsection \<open>generateImageWithGemini\<close>

text \<open>
  The response of the native multimodal model, as far as the function reads it:
  \<open>response.candidates\<close>, each candidate's \<open>content\<close>, its \<open>parts\<close>, and each part's
  \<open>inlineData\<close> with \<open>mimeType\<close> and \<open>data\<close>.
\<close>

datatype InlineData = InlineData "string option" "string option"
datatype Part = Part "InlineData option"
datatype Content = Content "Part list option"
datatype Candidate = Candidate "Content option"
datatype GeminiReply = GeminiRejects string | GeminiResponse "Candidate list option"

text \<open>The first part with truthy \<open>inlineData.data\<close>, as the data URL the callback receives.\<close>

fun first_inline :: "Part list \<Rightarrow> string option" where
  "first_inline [] = None"
| "first_inline (Part (Some (InlineData mime (Some (d # ds)))) # ps) =
     Some (''data:'' @ (case mime of Some (m # ms) \<Rightarrow> m # ms | _ \<Rightarrow> ''image/png'')
             @ '';base64,'' @ d # ds)"
| "first_inline (_ # ps) = first_inline ps"

text \<open>
  \<open>Inl m\<close>: the function throws an error with message \<open>m\<close>; \<open>Inr payload\<close>: it calls
  \<open>onImageFound(payload)\<close> once and returns. An empty \<open>candidates\<close> array is truthy, so
  \<open>candidates[0].content\<close> then throws a \<open>TypeError\<close> (message fixed by the model), and so
  does a first candidate without \<open>content\<close>.
\<close>

definition generateImageWithGemini ::
  "string option \<Rightarrow> string \<Rightarrow> string list \<Rightarrow> string \<Rightarrow> GeminiReply \<Rightarrow> string + string" where
  "generateImageWithGemini env_key prompt referenceImagesBase64 aspectRatio reply =
     (if \<not> truthy env_key then Inl ''Google GenAI API Key not found in environment.''
      else
        case reply of
          GeminiRejects m \<Rightarrow> Inl m
        | GeminiResponse None \<Rightarrow> Inl ''No image data found in response''
        | GeminiResponse (Some []) \<Rightarrow> Inl ''Cannot read properties of undefined''
        | GeminiResponse (Some (Candidate None # rest)) \<Rightarrow>
            Inl ''Cannot read properties of undefined''
        | GeminiResponse (Some (Candidate (Some (Content None)) # rest)) \<Rightarrow>
            Inl ''No image data found in response''
        | GeminiResponse (Some (Candidate (Some (Content (Some parts))) # rest)) \<Rightarrow>
            (case first_inline parts of
               Some payload \<Rightarrow> Inr payload
             | None \<Rightarrow> Inl ''No image data found in response''))"

subsection \<open>generateImageCustom\<close>

text \<open>
  The body of the one POST request the function issues, with the URL and the bearer
  token of its headers.
\<close>

record ImageRequest =
  req_url :: string
  req_authorization :: string
  req_model :: string
  req_prompt :: string
  req_n :: nat
  req_size :: string
  req_response_format :: string

text \<open>
  What the network answers to the request. \<open>Rejects m\<close>: \<open>fetch\<close>, \<open>response.text()\<close>
  or \<open>response.json()\<close> throws an error with message \<open>m\<close>. \<open>NotOk body\<close>:
  \<open>response.ok\<close> is false and the body text is \<open>body\<close>. \<open>Ok b64 url\<close>: the status is a
  success and the decoded body has \<open>data.data?.[0]?.b64_json = b64\<close> and
  \<open>data.data?.[0]?.url = url\<close>.
\<close>

datatype FetchReply = Rejects string | NotOk string | Ok "string option" "string option"

text \<open>
  The function returns the requests it has issued, in order, and its outcome:
  \<open>Inl m\<close> when it throws an error with message \<open>m\<close>, \<open>Inr payload\<close> when it calls
  \<open>onImageFound(payload)\<close> and returns. Every path of the source does exactly one of
  the two.
\<close>

definition generateImageCustom ::
  "ModelConfig \<Rightarrow> string \<Rightarrow> string \<Rightarrow> FetchReply \<Rightarrow> ImageRequest list \<times> (string + string)" where
  "generateImageCustom config prompt aspectRatio reply =
    (if \<not> truthy (endpoint config) \<or> \<not> truthy (apiKey config)
     then ([], Inl ''Missing endpoint or API key for custom model'')
     else
       let size0 = ''1024x1024'';
           size1 = (if aspectRatio = ''16:9'' then ''1792x1024'' else size0);
           size = (if aspectRatio = ''9:16'' then ''1024x1792'' else size1);
           request = \<lparr> req_url = (case endpoint config of Some e \<Rightarrow> e | None \<Rightarrow> [])
                                   @ ''/v1/images/generations'',
                       req_authorization =
                         ''Bearer '' @ (case apiKey config of Some k \<Rightarrow> k | None \<Rightarrow> []),
                       req_model = modelId config,
                       req_prompt = prompt,
                       req_n = 1,
                       req_size = size,
                       req_response_format = ''b64_json'' \<rparr>
       in ([request],
           (case reply of
              Rejects m \<Rightarrow> Inl m
            | NotOk err \<Rightarrow> Inl (''Custom API Error: '' @ err)
            | Ok b64 url \<Rightarrow>
                (case b64 of
                   Some (c # cs) \<Rightarrow> Inr (''data:image/png;base64,'' @ c # cs)
                 | _ \<Rightarrow>
                   (case url of
                      Some (d # ds) \<Rightarrow> Inr (d # ds)
                    | _ \<Rightarrow> Inl ''No image found in custom API response'')))))"

section \<open>Application state (App.tsx)\<close>

text \<open>
  The state a run shares with the rest of the application: the \<open>sessions\<close> state of the
  component, the one \<open>abortControllerRef\<close> of the component, and \<open>process.env.API_KEY\<close>.
  Every write to \<open>sessions\<close> in the source is a functional update
  (\<open>setSessions(prev => ...)\<close>); React applies them in the order they were issued, so the
  model applies each at once. \<open>sessionsRef.current\<close>, which \<open>startGeneration\<close> reads once at
  its start, is modelled by the same list.
\<close>

record World =
  sessions :: "Session list"
  abortFlag :: bool
  env_API_KEY :: "string option"

text \<open>
  A reading of the clock: \<open>Date.now()\<close> and \<open>new Date().toLocaleTimeString()\<close>. Each step
  of the model (the code that runs between two \<open>await\<close>s, or one event handler) reads one
  clock.
\<close>

record Clock =
  clk_now :: nat
  clk_time :: string

definition findSession :: "string \<Rightarrow> World \<Rightarrow> Session option" where
  "findSession sessionId w = find (\<lambda>s. s_id s = sessionId) (sessions w)"

definition updateSession :: "string \<Rightarrow> (Session \<Rightarrow> Session) \<Rightarrow> World \<Rightarrow> World" where
  "updateSession sessionId updates w =
     w\<lparr> sessions := map (\<lambda>s. if s_id s = sessionId then updates s else s) (sessions w) \<rparr>"

definition stamp :: "Clock \<Rightarrow> string \<Rightarrow> string" where
  "stamp clk message = ''['' @ clk_time clk @ ''] '' @ message"

definition addLog :: "Clock \<Rightarrow> string \<Rightarrow> string \<Rightarrow> World \<Rightarrow> World" where
  "addLog clk sessionId message w =
     w\<lparr> sessions :=
          map (\<lambda>s. if s_id s = sessionId then s\<lparr> logs := logs s @ [stamp clk message] \<rparr> else s)
            (sessions w) \<rparr>"

definition stopGeneration :: "Clock \<Rightarrow> string \<Rightarrow> World \<Rightarrow> World" where
  "stopGeneration clk sessionId w =
     addLog clk sessionId ''User interrupted the generation process.''
       (updateSession sessionId (\<lambda>s. s\<lparr> status := Stopped \<rparr>) (w\<lparr> abortFlag := True \<rparr>))"

text \<open>
  \<open>createSession\<close> up to its timer: the new session is put in front of the list. The
  timer then calls \<open>startGeneration\<close> with the new id, 100 ms later.
\<close>

definition createSession :: "Clock \<Rightarrow> string \<Rightarrow> string list \<Rightarrow> nat \<Rightarrow> World \<Rightarrow> World" where
  "createSession clk promptInput refImages genCount w =
     w\<lparr> sessions :=
          \<lparr> s_id = show_nat (clk_now clk),
            s_name = (if take 30 promptInput = [] then ''Untitled Task'' else take 30 promptInput),
            basePrompt = promptInput,
            referenceImages = refImages,
            generatedImages = [],
            generatedPrompts = [],
            createdAt = clk_now clk,
            status = Idle,
            totalTarget = genCount,
            progress = 0,
            logs = [''Session initialized. Waiting to start...''] \<rparr> # sessions w \<rparr>"

section \<open>The orchestrator (startGeneration)\<close>

text \<open>
  \<open>startGeneration\<close> is an \<open>async\<close> function: it runs until an \<open>await\<close>, and is resumed
  when the awaited call settles; other handlers of the application run in between. The
  model has one function for each stretch of code between two suspension points. What a
  suspended run remembers is a \<open>Run\<close>: the constants of its closure (\<open>sessionId\<close>, the
  \<open>session\<close> found at the start, \<open>activeModel\<close>), the local variables \<open>diversePrompts\<close> and
  \<open>aspectRatio\<close> (unassigned before the expansion settles; the model holds empty
  values there, which nothing reads), and where it is suspended: awaiting the expansion,
  awaiting the image of item \<open>i\<close> with its \<open>prompt\<close>, or returned.
\<close>

datatype PC = AwaitExpansion | AwaitImage nat string | Returned

record Run =
  run_sessionId :: string
  run_session :: Session
  run_model :: ModelConfig
  run_prompts :: "string list"
  run_aspectRatio :: string
  run_pc :: PC

text \<open>Lines 152-160: the guard, the reset of the flag and of the session, the first two log lines.\<close>

definition startGeneration :: "Clock \<Rightarrow> ModelConfig \<Rightarrow> string \<Rightarrow> World \<Rightarrow> World \<times> Run option" where
  "startGeneration clk activeModel sessionId w =
     (case findSession sessionId w of
        None \<Rightarrow> (w, None)
      | Some session \<Rightarrow>
         let w1 = w\<lparr> abortFlag := False \<rparr>;
             w2 = updateSession sessionId
                    (\<lambda>s. s\<lparr> status := Generating, progress := 5, logs := [] \<rparr>) w1;
             w3 = addLog clk sessionId
                    (''Starting generation task for '' @ show_nat (totalTarget session)
                       @ '' images.'') w2;
             w4 = addLog clk sessionId
                    ''Synthesizing diverse prompts & analyzing constraints...'' w3
         in (w4, Some \<lparr> run_sessionId = sessionId, run_session = session,
                         run_model = activeModel, run_prompts = [], run_aspectRatio = [],
                         run_pc = AwaitExpansion \<rparr>))"

text \<open>Lines 227-232: after the loop.\<close>

definition afterLoop :: "Clock \<Rightarrow> Run \<Rightarrow> World \<Rightarrow> World \<times> Run" where
  "afterLoop clk run w =
     (if \<not> abortFlag w
      then (addLog clk (run_sessionId run) ''Task completed successfully.''
              (updateSession (run_sessionId run)
                 (\<lambda>s. s\<lparr> status := Completed, progress := 100 \<rparr>) w),
            run\<lparr> run_pc := Returned \<rparr>)
      else (updateSession (run_sessionId run) (\<lambda>s. s\<lparr> status := Stopped \<rparr>) w,
            run\<lparr> run_pc := Returned \<rparr>))"

text \<open>
  Lines 186-190: the loop condition, the second cancellation checkpoint, and the body up
  to the call of the synthesizer, where the run is suspended with item \<open>i\<close> in flight.
\<close>

definition loopHead :: "Clock \<Rightarrow> nat \<Rightarrow> Run \<Rightarrow> World \<Rightarrow> World \<times> Run" where
  "loopHead clk i run w =
     (if i < length (run_prompts run) then
        (if abortFlag w then afterLoop clk run w
         else (addLog clk (run_sessionId run)
                 (''Generating image '' @ show_nat (i + 1) @ ''/''
                    @ show_nat (length (run_prompts run)) @ ''...'') w,
               run\<lparr> run_pc := AwaitImage i (run_prompts run ! i) \<rparr>))
      else afterLoop clk run w)"

text \<open>
  Lines 165-183: the expansion has settled, with the result \<open>Inr result\<close> or with an error
  of message \<open>Inl m\<close>; then the first cancellation checkpoint, the adoption of the prompt
  list, and the loop from item 0. The result is read at its declared type.
\<close>

definition expansionSettled :: "Clock \<Rightarrow> string + Expansion \<Rightarrow> Run \<Rightarrow> World \<Rightarrow> World \<times> Run" where
  "expansionSettled clk outcome run w =
     (let sessionId = run_sessionId run;
          session = run_session run;
          diversePrompts =
            (case outcome of
               Inr result \<Rightarrow> ex_prompts result
             | Inl m \<Rightarrow> replicate (totalTarget session) (basePrompt session));
          aspectRatio =
            (case outcome of
               Inr result \<Rightarrow> ex_aspectRatio result
             | Inl m \<Rightarrow> ''16:9'');
          w1 =
            (case outcome of
               Inr result \<Rightarrow> w
             | Inl m \<Rightarrow>
                addLog clk sessionId
                  (''Warning: Prompt expansion failed: '' @ m
                     @ ''. Using original prompt as fallback.'') w);
          run1 = run\<lparr> run_prompts := diversePrompts, run_aspectRatio := aspectRatio \<rparr>
      in if abortFlag w1 then (w1, run1\<lparr> run_pc := Returned \<rparr>)
         else
           let w2 = updateSession sessionId
                      (\<lambda>s. s\<lparr> generatedPrompts := diversePrompts, progress := 15 \<rparr>) w1;
               w3 = addLog clk sessionId
                      (''Generated '' @ show_nat (length diversePrompts)
                         @ '' unique variations.'') w2;
               w4 = addLog clk sessionId (''Target Aspect Ratio: '' @ aspectRatio) w3
           in loopHead clk 0 run1 w4)"

text \<open>
  Lines 193-213, \<open>handleImageResult\<close>. The source computes
  \<open>15 + Math.floor((updatedImages.length / current.totalTarget) * 85)\<close> in double
  precision; the model takes the floor of the exact quotient, which is the same number
  for the counts the interface offers (1, 2, 4, 8, 10, 20, 50, with at most that many
  images). For \<open>totalTarget = 0\<close> the source's value is \<open>Infinity\<close>, which the model does not
  represent; the statements about \<open>progress\<close> below take \<open>0 < totalTarget\<close>.
\<close>

definition newImage :: "Clock \<Rightarrow> string \<Rightarrow> string \<Rightarrow> nat \<Rightarrow> string \<Rightarrow> GeneratedImage" where
  "newImage clk sessionId prompt i base64OrUrl =
     \<lparr> img_id = sessionId @ ''_'' @ show_nat (clk_now clk) @ ''_'' @ show_nat i,
       img_url = base64OrUrl,
       img_prompt = prompt,
       img_timestamp = clk_now clk,
       img_tags = [] \<rparr>"

definition handleImageResult :: "Clock \<Rightarrow> string \<Rightarrow> string \<Rightarrow> nat \<Rightarrow> string \<Rightarrow> World \<Rightarrow> World" where
  "handleImageResult clk sessionId prompt i base64OrUrl w =
     (case findSession sessionId w of
        None \<Rightarrow> w
      | Some current \<Rightarrow>
         let updatedImages = generatedImages current @ [newImage clk sessionId prompt i base64OrUrl];
             newProgress = 15 + (int (length updatedImages) * 85) div int (totalTarget current)
         in w\<lparr> sessions :=
                 map (\<lambda>s. if s_id s = sessionId
                           then s\<lparr> generatedImages := updatedImages, progress := newProgress \<rparr>
                           else s) (sessions w) \<rparr>)"

text \<open>
  Lines 215-219: the synthesizer the run calls for an item, by the type of the active
  model. \<open>Network\<close> holds what each backend answers to the item's request, \<open>env_key\<close>
  is \<open>process.env.API_KEY\<close>.
\<close>

record Network =
  net_gemini :: GeminiReply
  net_http :: FetchReply

definition synthesize :: "string option \<Rightarrow> Run \<Rightarrow> string \<Rightarrow> Network \<Rightarrow> string + string" where
  "synthesize env_key run prompt net =
     (if mc_type (run_model run) = GEMINI
      then generateImageWithGemini env_key prompt (referenceImages (run_session run))
             (run_aspectRatio run) (net_gemini net)
      else snd (generateImageCustom (run_model run) prompt (run_aspectRatio run) (net_http net)))"

text \<open>
  Lines 192-225: the synthesizer call of the item in flight has settled. On success the
  callback has stored the image; on failure the \<open>catch\<close> logs the error. Then the loop
  goes on with the next index.
\<close>

definition imageSettled :: "Clock \<Rightarrow> Network \<Rightarrow> Run \<Rightarrow> World \<Rightarrow> World \<times> Run" where
  "imageSettled clk net run w =
     (case run_pc run of
        AwaitImage i prompt \<Rightarrow>
          let w1 =
                (case synthesize (env_API_KEY w) run prompt net of
                   Inr base64OrUrl \<Rightarrow> handleImageResult clk (run_sessionId run) prompt i base64OrUrl w
                 | Inl m \<Rightarrow>
                    addLog clk (run_sessionId run)
                      (''Error generating image '' @ show_nat (i + 1) @ '': '' @ m) w)
          in loopHead clk (i + 1) run w1
      | _ \<Rightarrow> (w, run))"

subsection \<open>A run in its environment\<close>

text \<open>
  What else happens in the application while a run is suspended: the user creates a
  session or presses the stop button of one, and other runs start and are resumed. The
  steps of other runs are the same functions, applied to the state of that run.
\<close>

datatype Event =
    UserCreates string "string list" nat
  | UserStops string
  | OtherStarts ModelConfig string
  | OtherExpansion "string + Expansion" Run
  | OtherImage Network Run

fun applyEvent :: "Clock \<Rightarrow> Event \<Rightarrow> World \<Rightarrow> World" where
  "applyEvent clk (UserCreates promptInput refImages genCount) w =
     createSession clk promptInput refImages genCount w"
| "applyEvent clk (UserStops sessionId) w = stopGeneration clk sessionId w"
| "applyEvent clk (OtherStarts activeModel sessionId) w =
     fst (startGeneration clk activeModel sessionId w)"
| "applyEvent clk (OtherExpansion outcome other) w = fst (expansionSettled clk outcome other w)"
| "applyEvent clk (OtherImage net other) w = fst (imageSettled clk net other w)"

text \<open>
  One input of a run: an event of its environment, or the settling of the call it
  awaits. A settling the run does not await cannot happen; the model leaves the state
  as it is.
\<close>

datatype Input =
    Env Event
  | ExpansionSettles "string + Expansion"
  | ImageSettles Network

fun step :: "World \<times> Run \<Rightarrow> Clock \<times> Input \<Rightarrow> World \<times> Run" where
  "step (w, run) (clk, Env e) = (applyEvent clk e w, run)"
| "step (w, run) (clk, ExpansionSettles outcome) =
     (if run_pc run = AwaitExpansion then expansionSettled clk outcome run w else (w, run))"
| "step (w, run) (clk, ImageSettles net) = imageSettled clk net run w"

definition drive :: "World \<times> Run \<Rightarrow> (Clock \<times> Input) list \<Rightarrow> World \<times> Run" where
  "drive st inputs = foldl step st inputs"


text \<open>A whole run: \<open>startGeneration(sessionId)\<close> from its call, with what its environment does.\<close>

definition runFrom ::
  "Clock \<Rightarrow> ModelConfig \<Rightarrow> string \<Rightarrow> World \<Rightarrow> (Clock \<times> Input) list \<Rightarrow> (World \<times> Run) option" where
  "runFrom clk activeModel sessionId w inputs =
     (case startGeneration clk activeModel sessionId w of
        (w1, None) \<Rightarrow> None
      | (w1, Some run0) \<Rightarrow> Some (drive (w1, run0) inputs))"

definition sessionAfter ::
  "Clock \<Rightarrow> ModelConfig \<Rightarrow> string \<Rightarrow> World \<Rightarrow> (Clock \<times> Input) list \<Rightarrow> Session option" where
  "sessionAfter clk activeModel sessionId w inputs =
     (case runFrom clk activeModel sessionId w inputs of
        None \<Rightarrow> None
      | Some (w', run') \<Rightarrow> findSession sessionId w')"

definition pcAfter ::
  "Clock \<Rightarrow> ModelConfig \<Rightarrow> string \<Rightarrow> World \<Rightarrow> (Clock \<times> Input) list \<Rightarrow> PC option" where
  "pcAfter clk activeModel sessionId w inputs =
     map_option (run_pc \<circ> snd) (runFrom clk activeModel sessionId w inputs)"

text \<open>
  What the statements below ask of the environment of the run of session \<open>sid\<close>: every
  other run works on another session, and no session is created under the id \<open>sid\<close>
  (the id of a new session is the clock reading of its creation). Stop requests are
  free, for any session.
\<close>

definition foreign :: "string \<Rightarrow> Clock \<times> Input \<Rightarrow> bool" where
  "foreign sid ci =
     (case snd ci of
        Env (UserCreates promptInput refImages genCount) \<Rightarrow> show_nat (clk_now (fst ci)) \<noteq> sid
      | Env (UserStops sessionId) \<Rightarrow> True
      | Env (OtherStarts activeModel sessionId) \<Rightarrow> sessionId \<noteq> sid
      | Env (OtherExpansion outcome other) \<Rightarrow> run_sessionId other \<noteq> sid
      | Env (OtherImage net other) \<Rightarrow> run_sessionId other \<noteq> sid
      | ExpansionSettles outcome \<Rightarrow> True
      | ImageSettles net \<Rightarrow> True)"

text \<open>The expander returns at most \<open>n\<close> prompts, if it returns.\<close>

definition expansion_within :: "nat \<Rightarrow> Clock \<times> Input \<Rightarrow> bool" where
  "expansion_within n ci =
     (case snd ci of
        ExpansionSettles (Inr result) \<Rightarrow> length (ex_prompts result) \<le> n
      | _ \<Rightarrow> True)"

text \<open>The number of items of a run whose synthesizer call has settled.\<close>

definition settled :: "Run \<Rightarrow> nat" where
  "settled run =
     (case run_pc run of
        AwaitExpansion \<Rightarrow> 0
      | AwaitImage i prompt \<Rightarrow> i
      | Returned \<Rightarrow> length (run_prompts run))"

subsection \<open>Concrete scenarios\<close>

text \<open>The default model of App.tsx, an application without sessions, and some answers.\<close>

definition DEFAULT_MODEL :: ModelConfig where
  "DEFAULT_MODEL =
     \<lparr> mc_id = ''default-gemini'', mc_name = ''Nanobanana Pro (Default)'', mc_type = GEMINI,
       endpoint = None, apiKey = None, modelId = ''gemini-3-pro-image-preview'' \<rparr>"

definition customModel :: ModelConfig where
  "customModel =
     \<lparr> mc_id = ''1700000000000'', mc_name = ''Custom'', mc_type = OPENAI_COMPATIBLE,
       endpoint = Some ''https://api.example.com'', apiKey = Some ''sk-1'',
       modelId = ''dall-e-3'' \<rparr>"

definition noSessions :: World where
  "noSessions = \<lparr> sessions = [], abortFlag = False, env_API_KEY = Some ''key'' \<rparr>"

definition at :: "nat \<Rightarrow> Clock" where
  "at n = \<lparr> clk_now = n, clk_time = show_nat n \<rparr>"

definition imageOk :: "string \<Rightarrow> Network" where
  "imageOk d =
     \<lparr> net_gemini =
         GeminiResponse (Some [Candidate (Some (Content (Some
           [Part (Some (InlineData (Some ''image/png'') (Some d)))])))]),
       net_http = Ok (Some d) None \<rparr>"

definition imageFails :: "string \<Rightarrow> Network" where
  "imageFails m = \<lparr> net_gemini = GeminiRejects m, net_http = Rejects m \<rparr>"

definition twoPrompts :: Expansion where
  "twoPrompts = \<lparr> ex_prompts = [''p1'', ''p2''], ex_aspectRatio = ''16:9'' \<rparr>"

text \<open>Session \<open>''1''\<close>, created at time 1 for \<open>n\<close> images.\<close>

definition oneSession :: "nat \<Rightarrow> World" where
  "oneSession n = createSession (at 1) ''a cat'' [] n noSessions"

definition failingExpansion :: "(Clock \<times> Input) list" where
  "failingExpansion =
     [(at 3, ExpansionSettles (Inl ''network down'')),
      (at 4, ImageSettles (imageOk ''QUJD'')),
      (at 5, Env (UserStops ''1'')),
      (at 6, ImageSettles (imageFails ''quota''))]"

text \<open>The expander returns two prompts, and both images are synthesized.\<close>

definition twoImages :: "(Clock \<times> Input) list" where
  "twoImages =
     [(at 3, ExpansionSettles (Inr twoPrompts)),
      (at 4, ImageSettles (imageOk ''QUJD'')),
      (at 6, ImageSettles (imageOk ''REVG''))]"


text \<open>Answers of the text-generation service.\<close>

definition exampleResponse :: string where
  \<open>exampleResponse = ''Here you go: {"prompts":["a","b"],"aspectRatio":"16:9"}''\<close>

definition exampleObject :: string where
  \<open>exampleObject = ''{"prompts":["a"],"aspectRatio":"16:9"}''\<close>

definition numbersObject :: string where
  \<open>numbersObject = ''```json{"prompts":[1,2]}```''\<close>

text \<open>
  While the run of session \<open>''1''\<close> has its first item in flight, the user creates session
  \<open>''5''\<close>, whose run starts; then both items of session \<open>''1''\<close> are synthesized.
\<close>

definition quietNeighbour :: "(Clock \<times> Input) list" where
  "quietNeighbour =
     [(at 3, ExpansionSettles (Inr twoPrompts)),
      (at 5, Env (UserCreates ''a dog'' [] 1)),
      (at 6, Env (OtherStarts DEFAULT_MODEL ''5'')),
      (at 8, ImageSettles (imageOk ''QUJD'')),
      (at 9, ImageSettles (imageOk ''REVG''))]"

text \<open>The same, but the user stops session \<open>''5''\<close> once its run has started.\<close>

definition stoppedNeighbour :: "(Clock \<times> Input) list" where
  "stoppedNeighbour =
     take 3 quietNeighbour @ [(at 7, Env (UserStops ''5''))] @ drop 3 quietNeighbour"

text \<open>
  While the run of session \<open>''1''\<close> has its first item in flight, the user stops session
  \<open>''1''\<close> and then creates session \<open>''5''\<close>, whose run starts; then the calls of session
  \<open>''1''\<close> settle.
\<close>

definition stopThenNewRun :: "(Clock \<times> Input) list" where
  "stopThenNewRun =
     [(at 3, ExpansionSettles (Inr twoPrompts)),
      (at 4, Env (UserStops ''1'')),
      (at 5, Env (UserCreates ''a dog'' [] 1)),
      (at 6, Env (OtherStarts DEFAULT_MODEL ''5'')),
      (at 8, ImageSettles (imageOk ''QUJD'')),
      (at 9, ImageSettles (imageOk ''REVG''))]"

section \<open>Invariants of a run\<close>

text \<open>
  The session of the run exists, it holds at most one new image per settled item, and
  an item in flight is an item of the prompt list.
\<close>

definition inv1 :: "string \<Rightarrow> Session \<Rightarrow> World \<times> Run \<Rightarrow> bool" where
  "inv1 sid s0 st =
     (run_sessionId (snd st) = sid \<and> run_session (snd st) = s0 \<and>
      (\<exists>s. findSession sid (fst st) = Some s \<and>
           length (generatedImages s) \<le> length (generatedImages s0) + settled (snd st)) \<and>
      (\<forall>i prompt. run_pc (snd st) = AwaitImage i prompt \<longrightarrow> i < length (run_prompts (snd st))))"




section \<open>What each operation does to one session\<close>

lemma find_map_update:
  assumes "\<And>s. s_id (f s) = s_id s"
  shows "find (\<lambda>s. s_id s = a) (map (\<lambda>s. if s_id s = b then f s else s) xs) =
           (if a = b then map_option f (find (\<lambda>s. s_id s = a) xs)
            else find (\<lambda>s. s_id s = a) xs)"
  using assms by (induction xs) auto

lemma findSession_updateSession:
  assumes "\<And>s. s_id (f s) = s_id s"
  shows "findSession a (updateSession b f w) =
           (if a = b then map_option f (findSession a w) else findSession a w)"
  unfolding findSession_def updateSession_def
  using find_map_update [of f a b "sessions w", OF assms] by simp

lemma findSession_addLog:
  "findSession a (addLog clk b m w) =
     (if a = b then map_option (\<lambda>s. s\<lparr> logs := logs s @ [stamp clk m] \<rparr>) (findSession a w)
      else findSession a w)"
  unfolding findSession_def addLog_def
  using find_map_update [of "\<lambda>s. s\<lparr> logs := logs s @ [stamp clk m] \<rparr>" a b "sessions w"] by simp

lemma findSession_handleImageResult:
  "findSession a (handleImageResult clk b p i u w) =
     (if a = b
      then map_option
             (\<lambda>s. s\<lparr> generatedImages := generatedImages s @ [newImage clk b p i u],
                     progress := 15 + (int (length (generatedImages s @ [newImage clk b p i u])) * 85)
                                        div int (totalTarget s) \<rparr>)
             (findSession a w)
      else findSession a w)"
proof (cases "findSession b w")
  case None
  then show ?thesis
    by (cases "a = b") (simp_all add: handleImageResult_def Let_def)
next
  case (Some current)
  define f :: "Session \<Rightarrow> Session" where
    "f = (\<lambda>s. s\<lparr> generatedImages := generatedImages current @ [newImage clk b p i u],
               progress := 15 + (int (length (generatedImages current @ [newImage clk b p i u])) * 85)
                                  div int (totalTarget current) \<rparr>)"
  have id: "\<And>s. s_id (f s) = s_id s"
    by (simp add: f_def)
  have "handleImageResult clk b p i u w =
          w\<lparr> sessions := map (\<lambda>s. if s_id s = b then f s else s) (sessions w) \<rparr>"
    using Some by (simp add: handleImageResult_def Let_def f_def)
  then have "findSession a (handleImageResult clk b p i u w) =
          (if a = b then map_option f (findSession a w) else findSession a w)"
    using find_map_update [of f a b "sessions w", OF id] by (simp add: findSession_def)
  with Some show ?thesis
    by (cases "a = b") (simp_all add: f_def)
qed

lemma findSession_abortFlag: "findSession a (w\<lparr> abortFlag := x \<rparr>) = findSession a w"
  by (simp add: findSession_def)

lemma abortFlag_updateSession: "abortFlag (updateSession b f w) = abortFlag w"
  by (simp add: updateSession_def)

lemma abortFlag_addLog: "abortFlag (addLog clk b m w) = abortFlag w"
  by (simp add: addLog_def)

lemma abortFlag_handleImageResult: "abortFlag (handleImageResult clk b p i u w) = abortFlag w"
  by (simp add: handleImageResult_def Let_def split: option.splits)

lemma findSession_createSession:
  "show_nat (clk_now clk) \<noteq> a \<Longrightarrow>
     findSession a (createSession clk p r n w) = findSession a w"
  by (simp add: findSession_def createSession_def)

lemmas frame =
  findSession_updateSession findSession_addLog findSession_handleImageResult
  findSession_abortFlag
  abortFlag_updateSession abortFlag_addLog abortFlag_handleImageResult

text \<open>A run writes to no session but its own.\<close>

lemma afterLoop_other:
  "run_sessionId run \<noteq> a \<Longrightarrow> findSession a (fst (afterLoop clk run w)) = findSession a w"
  by (simp add: afterLoop_def frame)

lemma loopHead_other:
  "run_sessionId run \<noteq> a \<Longrightarrow> findSession a (fst (loopHead clk i run w)) = findSession a w"
  by (simp add: loopHead_def afterLoop_other frame)

lemma expansionSettled_other:
  "run_sessionId run \<noteq> a \<Longrightarrow>
     findSession a (fst (expansionSettled clk outcome run w)) = findSession a w"
  by (cases outcome) (simp_all add: expansionSettled_def Let_def loopHead_other frame)

lemma imageSettled_other:
  "run_sessionId run \<noteq> a \<Longrightarrow> findSession a (fst (imageSettled clk net run w)) = findSession a w"
  by (simp add: imageSettled_def Let_def loopHead_other frame split: PC.splits sum.splits)

lemma startGeneration_other:
  "b \<noteq> a \<Longrightarrow> findSession a (fst (startGeneration clk m b w)) = findSession a w"
  by (simp add: startGeneration_def Let_def frame split: option.splits)

lemma findSession_stopGeneration:
  "findSession a (stopGeneration clk b w) =
     (if a = b
      then map_option (\<lambda>s. s\<lparr> status := Stopped,
                 logs := logs s @ [stamp clk ''User interrupted the generation process.''] \<rparr>)
             (findSession a w)
      else findSession a w)"
  by (cases "findSession b w") (simp_all add: stopGeneration_def frame)

text \<open>An event of the environment changes the session of a run at most by a stop request.\<close>

lemma env_frame:
  assumes "foreign a (clk, Env e)"
  shows "findSession a (applyEvent clk e w) =
           (if e = UserStops a
            then map_option (\<lambda>s. s\<lparr> status := Stopped,
                 logs := logs s @ [stamp clk ''User interrupted the generation process.''] \<rparr>)
                   (findSession a w)
            else findSession a w)"
  using assms
  by (cases e)
     (auto simp: foreign_def findSession_createSession findSession_stopGeneration
        startGeneration_other expansionSettled_other imageSettled_other)

text \<open>The local variables of a run after each of its steps.\<close>

lemma snd_afterLoop: "snd (afterLoop clk run w) = run\<lparr> run_pc := Returned \<rparr>"
  by (simp add: afterLoop_def)

lemma snd_loopHead:
  "snd (loopHead clk i run w) =
     run\<lparr> run_pc := (if i < length (run_prompts run) \<and> \<not> abortFlag w
                      then AwaitImage i (run_prompts run ! i) else Returned) \<rparr>"
  by (simp add: loopHead_def snd_afterLoop)

lemma snd_imageSettled:
  "run_prompts (snd (imageSettled clk net run w)) = run_prompts run \<and>
   run_session (snd (imageSettled clk net run w)) = run_session run"
  by (simp add: imageSettled_def Let_def snd_loopHead split: PC.splits)

lemma snd_expansionSettled:
  "run_session (snd (expansionSettled clk outcome run w)) = run_session run \<and>
   run_prompts (snd (expansionSettled clk outcome run w)) =
     (case outcome of Inr result \<Rightarrow> ex_prompts result
      | Inl m \<Rightarrow> replicate (totalTarget (run_session run)) (basePrompt (run_session run)))"
  by (simp add: expansionSettled_def Let_def snd_loopHead)

lemma runFrom_Some:
  assumes "runFrom clk0 activeModel sid w0 inputs = Some (w, run)"
  obtains w1 run0 where "startGeneration clk0 activeModel sid w0 = (w1, Some run0)"
    and "drive (w1, run0) inputs = (w, run)"
    and "findSession sid w0 = Some (run_session run0)"
    and "run_prompts run0 = []"
proof -
  from assms obtain w1 run0 where
    a: "startGeneration clk0 activeModel sid w0 = (w1, Some run0)" and
    b: "drive (w1, run0) inputs = (w, run)"
    by (auto simp: runFrom_def split: prod.splits option.splits)
  from a have "findSession sid w0 = Some (run_session run0)" "run_prompts run0 = []"
    by (auto simp: startGeneration_def Let_def split: option.splits)
  with a b that show thesis by blast
qed

section \<open>The OpenAI-compatible synthesizer\<close>

text \<open>
  C8. A configuration of the OpenAI-compatible variant whose endpoint or whose API key
  is missing (\<open>undefined\<close>, or the empty string the settings form starts from) makes
  the synthesizer throw its configuration error, and the list of requests it has issued
  is empty: it fails before any network call.
\<close>

theorem generateImageCustom_missing_credentials:
  assumes "endpoint config \<in> {None, Some []} \<or> apiKey config \<in> {None, Some []}"
  shows "generateImageCustom config prompt aspectRatio reply =
           ([], Inl ''Missing endpoint or API key for custom model'')"
proof -
  from assms have "\<not> truthy (endpoint config) \<or> \<not> truthy (apiKey config)"
    by auto
  then show ?thesis
    unfolding generateImageCustom_def by simp
qed

theorem generateImageCustom_missing_credentials_witness:
  "endpoint (customModel\<lparr> endpoint := None \<rparr>) \<in> {None, Some []}
   \<and> generateImageCustom (customModel\<lparr> endpoint := None \<rparr>) ''a cat'' ''16:9''
       (Ok (Some ''QUJD'') None)
     = ([], Inl ''Missing endpoint or API key for custom model'')"
  using generateImageCustom_missing_credentials
    [of "customModel\<lparr> endpoint := None \<rparr>" "''a cat''" "''16:9''" "Ok (Some ''QUJD'') None"]
  by simp

text \<open>
  C9. With an endpoint and an API key, every call of the OpenAI-compatible synthesizer
  issues exactly one request, and the size in its body is \<open>1792x1024\<close> for the aspect
  ratio \<open>16:9\<close>, \<open>1024x1792\<close> for \<open>9:16\<close> and \<open>1024x1024\<close> for every other aspect
  ratio.
\<close>

theorem generateImageCustom_size:
  assumes "truthy (endpoint config)" and "truthy (apiKey config)"
  shows "map req_size (fst (generateImageCustom config prompt aspectRatio reply)) =
           [if aspectRatio = ''16:9'' then ''1792x1024''
            else if aspectRatio = ''9:16'' then ''1024x1792''
            else ''1024x1024'']"
  using assms unfolding generateImageCustom_def by (simp add: Let_def)

theorem generateImageCustom_size_witness:
  "truthy (endpoint customModel) \<and> truthy (apiKey customModel)
   \<and> map req_size (fst (generateImageCustom customModel ''a cat'' ''9:16'' (NotOk ''busy'')))
       = [''1024x1792'']
   \<and> map req_size (fst (generateImageCustom customModel ''a cat'' ''16:9'' (NotOk ''busy'')))
       = [''1792x1024'']
   \<and> map req_size (fst (generateImageCustom customModel ''a cat'' ''4:3'' (NotOk ''busy'')))
       = [''1024x1024'']"
proof -
  have e: "truthy (endpoint customModel)" and k: "truthy (apiKey customModel)"
    by (simp_all add: customModel_def)
  from generateImageCustom_size [OF e k, of "''a cat''" "''9:16''" "NotOk ''busy''"]
       generateImageCustom_size [OF e k, of "''a cat''" "''16:9''" "NotOk ''busy''"]
       generateImageCustom_size [OF e k, of "''a cat''" "''4:3''" "NotOk ''busy''"]
       e k
  show ?thesis by simp
qed

section \<open>Images and prompts\<close>

lemma inv1_start:
  assumes "startGeneration clk0 activeModel sid w0 = (w1, Some run0)"
  shows "inv1 sid (run_session run0) (w1, run0)"
  using assms
  by (auto simp: inv1_def startGeneration_def Let_def frame settled_def split: option.splits)

lemma inv1_afterLoop:
  assumes "run_sessionId run = sid" "run_session run = s0"
    and "findSession sid w = Some s"
    and "length (generatedImages s) \<le> length (generatedImages s0) + length (run_prompts run)"
  shows "inv1 sid s0 (afterLoop clk run w)"
  using assms by (simp add: inv1_def afterLoop_def frame settled_def)

lemma inv1_loopHead:
  assumes "run_sessionId run = sid" "run_session run = s0"
    and "findSession sid w = Some s"
    and "length (generatedImages s) \<le> length (generatedImages s0) + i"
    and "i \<le> length (run_prompts run)"
  shows "inv1 sid s0 (loopHead clk i run w)"
proof (cases "i < length (run_prompts run) \<and> \<not> abortFlag w")
  case True
  with assms show ?thesis
    by (simp add: inv1_def loopHead_def frame settled_def)
next
  case False
  then have "loopHead clk i run w = afterLoop clk run w"
    by (auto simp: loopHead_def)
  with assms show ?thesis
    using inv1_afterLoop [of run sid s0 w s clk] by simp
qed

lemma inv1_step:
  assumes "inv1 sid s0 st" and "foreign sid ci"
  shows "inv1 sid s0 (step st ci)"
proof -
  obtain w run where st: "st = (w, run)" by (cases st)
  obtain clk inp where ci: "ci = (clk, inp)" by (cases ci)
  from assms(1) st obtain s where
    run: "run_sessionId run = sid" "run_session run = s0" and
    s: "findSession sid w = Some s"
       "length (generatedImages s) \<le> length (generatedImages s0) + settled run" and
    pc: "\<forall>i prompt. run_pc run = AwaitImage i prompt \<longrightarrow> i < length (run_prompts run)"
    by (auto simp: inv1_def)
  show ?thesis
  proof (cases inp)
    case (Env e)
    with assms(2) ci have "foreign sid (clk, Env e)" by simp
    from env_frame [OF this, of w] s run pc show ?thesis
      unfolding st ci Env by (auto simp: inv1_def)
  next
    case (ExpansionSettles outcome)
    show ?thesis
    proof (cases "run_pc run = AwaitExpansion")
      case False
      with assms(1) show ?thesis
        unfolding st ci ExpansionSettles by simp
    next
      case True
      define ps where "ps = (case outcome of Inr result \<Rightarrow> ex_prompts result
                             | Inl m \<Rightarrow> replicate (totalTarget s0) (basePrompt s0))"
      define ar where "ar = (case outcome of Inr result \<Rightarrow> ex_aspectRatio result | Inl m \<Rightarrow> ''16:9'')"
      define w1 where "w1 = (case outcome of Inr result \<Rightarrow> w
                             | Inl m \<Rightarrow> addLog clk sid (''Warning: Prompt expansion failed: '' @ m
                                 @ ''. Using original prompt as fallback.'') w)"
      define run1 where "run1 = run\<lparr> run_prompts := ps, run_aspectRatio := ar \<rparr>"
      define w4 where "w4 = addLog clk sid (''Target Aspect Ratio: '' @ ar)
                (addLog clk sid (''Generated '' @ show_nat (length ps) @ '' unique variations.'')
                  (updateSession sid (\<lambda>s. s\<lparr> generatedPrompts := ps, progress := 15 \<rparr>) w1))"
      have es: "expansionSettled clk outcome run w =
              (if abortFlag w1 then (w1, run1\<lparr> run_pc := Returned \<rparr>) else loopHead clk 0 run1 w4)"
        using run by (simp add: expansionSettled_def Let_def ps_def ar_def w1_def run1_def w4_def)
      have "\<exists>s'. findSession sid w1 = Some s' \<and> generatedImages s' = generatedImages s"
        using s by (cases outcome) (simp_all add: w1_def frame)
      then obtain s' where s': "findSession sid w1 = Some s'" "generatedImages s' = generatedImages s"
        by blast
      have "\<exists>s''. findSession sid w4 = Some s'' \<and> generatedImages s'' = generatedImages s"
        using s' by (simp add: w4_def frame)
      then obtain s'' where s'': "findSession sid w4 = Some s''" "generatedImages s'' = generatedImages s"
        by blast
      have r1: "run_sessionId run1 = sid" "run_session run1 = s0"
        using run by (simp_all add: run1_def)
      from s(2) True have len: "length (generatedImages s) \<le> length (generatedImages s0)"
        by (simp add: settled_def)
      show ?thesis
      proof (cases "abortFlag w1")
        case True
        with es s' len r1 show ?thesis
          unfolding st ci ExpansionSettles using \<open>run_pc run = AwaitExpansion\<close>
          by (simp add: inv1_def settled_def)
      next
        case False
        have "inv1 sid s0 (loopHead clk 0 run1 w4)"
          using inv1_loopHead [OF r1 s''(1), of 0 clk] s''(2) len by simp
        with es False show ?thesis
          unfolding st ci ExpansionSettles using \<open>run_pc run = AwaitExpansion\<close> by simp
      qed
    qed
  next
    case (ImageSettles net)
    show ?thesis
    proof (cases "run_pc run")
      case (AwaitImage i prompt)
      define w1 where "w1 = (case synthesize (env_API_KEY w) run prompt net of
                   Inr base64OrUrl \<Rightarrow> handleImageResult clk sid prompt i base64OrUrl w
                 | Inl m \<Rightarrow> addLog clk sid (''Error generating image '' @ show_nat (i + 1) @ '': '' @ m) w)"
      have seq: "imageSettled clk net run w = loopHead clk (i + 1) run w1"
        using AwaitImage run by (simp add: imageSettled_def Let_def w1_def cong: sum.case_cong)
      from s(2) AwaitImage have len: "length (generatedImages s) \<le> length (generatedImages s0) + i"
        by (simp add: settled_def)
      from pc AwaitImage have i: "i < length (run_prompts run)" by simp
      have "\<exists>s'. findSession sid w1 = Some s' \<and> length (generatedImages s') \<le> length (generatedImages s) + 1"
        using s(1) by (cases "synthesize (env_API_KEY w) run prompt net") (simp_all add: w1_def frame)
      then obtain s' where s': "findSession sid w1 = Some s'"
          "length (generatedImages s') \<le> length (generatedImages s) + 1"
        by blast
      have "inv1 sid s0 (loopHead clk (i + 1) run w1)"
        using inv1_loopHead [OF run s'(1), of "i + 1" clk] s'(2) len i by simp
      with seq show ?thesis
        unfolding st ci ImageSettles by simp
    next
      case AwaitExpansion
      with assms(1) show ?thesis
        unfolding st ci ImageSettles by (simp add: imageSettled_def)
    next
      case Returned
      with assms(1) show ?thesis
        unfolding st ci ImageSettles by (simp add: imageSettled_def)
    qed
  qed
qed

lemma inv1_drive:
  assumes "inv1 sid s0 st" and "list_all (foreign sid) inputs"
  shows "inv1 sid s0 (drive st inputs)"
  using assms unfolding drive_def
  by (induction inputs arbitrary: st) (simp_all add: inv1_step)

lemma prompts_bound_step:
  assumes "length (run_prompts (snd st)) \<le> totalTarget (run_session (snd st))"
    and "expansion_within (totalTarget (run_session (snd st))) ci"
  shows "length (run_prompts (snd (step st ci))) \<le> totalTarget (run_session (snd (step st ci)))
       \<and> run_session (snd (step st ci)) = run_session (snd st)"
proof -
  obtain w run where st: "st = (w, run)" by (cases st)
  obtain clk inp where ci: "ci = (clk, inp)" by (cases ci)
  show ?thesis
  proof (cases inp)
    case (Env e)
    with assms show ?thesis unfolding st ci by simp
  next
    case (ExpansionSettles outcome)
    with assms show ?thesis
      unfolding st ci
      by (cases outcome) (simp_all add: snd_expansionSettled expansion_within_def)
  next
    case (ImageSettles net)
    with assms show ?thesis
      unfolding st ci by (simp add: snd_imageSettled)
  qed
qed

lemma prompts_bound_drive:
  assumes "length (run_prompts (snd st)) \<le> totalTarget (run_session (snd st))"
    and "list_all (expansion_within (totalTarget (run_session (snd st)))) inputs"
  shows "length (run_prompts (snd (drive st inputs))) \<le> totalTarget (run_session (snd st))"
  using assms unfolding drive_def
proof (induction inputs arbitrary: st)
  case Nil
  then show ?case by simp
next
  case (Cons ci inputs)
  from Cons.prems have a: "expansion_within (totalTarget (run_session (snd st))) ci"
    and b: "list_all (expansion_within (totalTarget (run_session (snd st)))) inputs"
    by simp_all
  from prompts_bound_step [OF Cons.prems(1) a]
  have c: "length (run_prompts (snd (step st ci))) \<le> totalTarget (run_session (snd (step st ci)))"
    and d: "run_session (snd (step st ci)) = run_session (snd st)"
    by blast+
  from Cons.IH [OF c] b d show ?case by simp
qed

text \<open>
  C1, as the code has it. At every point of a run (after any inputs, in an environment
  that leaves the run's session to the run and to stop requests), the number of images
  the run has added to its session is at most the number of prompts of the list the run
  has adopted. The adopted list is the expander's, whatever its length, or
  \<open>totalTarget\<close> copies of the base prompt: so the number of added images is at most
  \<open>totalTarget\<close> whenever the expander fails or returns at most \<open>totalTarget\<close> prompts.
\<close>

theorem generatedImages_bounded_by_prompts:
  assumes "runFrom clk0 activeModel sid w0 inputs = Some (w, run)"
    and "list_all (foreign sid) inputs"
  shows "\<exists>s0 s. findSession sid w0 = Some s0 \<and> findSession sid w = Some s \<and>
           length (generatedImages s) \<le> length (generatedImages s0) + length (run_prompts run) \<and>
           (list_all (expansion_within (totalTarget s0)) inputs \<longrightarrow>
              length (generatedImages s) \<le> length (generatedImages s0) + totalTarget s0)"
proof -
  from assms(1) obtain w1 run0 where
    start: "startGeneration clk0 activeModel sid w0 = (w1, Some run0)" and
    drv: "drive (w1, run0) inputs = (w, run)" and
    s0: "findSession sid w0 = Some (run_session run0)" and
    nil: "run_prompts run0 = []"
    by (rule runFrom_Some)
  let ?s0 = "run_session run0"
  have "inv1 sid ?s0 (drive (w1, run0) inputs)"
    using inv1_drive [OF inv1_start [OF start] assms(2)] .
  with drv obtain s where s: "findSession sid w = Some s"
      "length (generatedImages s) \<le> length (generatedImages ?s0) + settled run"
      and pc: "\<forall>i prompt. run_pc run = AwaitImage i prompt \<longrightarrow> i < length (run_prompts run)"
    by (auto simp: inv1_def)
  have "settled run \<le> length (run_prompts run)"
    using pc by (cases "run_pc run") (auto simp: settled_def)
  with s(2) have bound:
    "length (generatedImages s) \<le> length (generatedImages ?s0) + length (run_prompts run)"
    by simp
  have "length (run_prompts run) \<le> totalTarget ?s0"
    if "list_all (expansion_within (totalTarget ?s0)) inputs"
    using prompts_bound_drive [of "(w1, run0)" inputs] that nil drv by simp
  with bound s0 s(1) show ?thesis by fastforce
qed

theorem generatedImages_bounded_by_prompts_witness:
  "runFrom (at 2) DEFAULT_MODEL ''1'' (oneSession 2) failingExpansion \<noteq> None \<and>
   list_all (foreign ''1'') failingExpansion \<and>
   (\<exists>s0 s. findSession ''1'' (oneSession 2) = Some s0 \<and>
      sessionAfter (at 2) DEFAULT_MODEL ''1'' (oneSession 2) failingExpansion = Some s \<and>
      length (generatedImages s) \<le> length (generatedImages s0) + totalTarget s0)"
proof -
  have a: "runFrom (at 2) DEFAULT_MODEL ''1'' (oneSession 2) failingExpansion \<noteq> None"
    by code_simp
  then obtain w run where
    r: "runFrom (at 2) DEFAULT_MODEL ''1'' (oneSession 2) failingExpansion = Some (w, run)"
    by auto
  have f: "list_all (foreign ''1'') failingExpansion"
    by code_simp
  have e: "list_all (expansion_within n) failingExpansion" for n
    by (simp add: failingExpansion_def expansion_within_def)
  from generatedImages_bounded_by_prompts [OF r f] e r a f show ?thesis
    by (auto simp: sessionAfter_def)
qed

text \<open>
  The claim as stated fails: for a session with \<open>totalTarget = 1\<close>, an expander that
  returns two prompts makes the run add two images.
\<close>

theorem generatedImages_exceed_totalTarget:
  "map_option totalTarget (sessionAfter (at 2) DEFAULT_MODEL ''1'' (oneSession 1) twoImages)
     = Some 1 \<and>
   map_option (length \<circ> generatedImages)
     (sessionAfter (at 2) DEFAULT_MODEL ''1'' (oneSession 1) twoImages) = Some 2"
  by code_simp

section \<open>The log of a session\<close>

lemma logs_afterLoop:
  assumes "findSession a w = Some s"
  shows "\<exists>s'. findSession a (fst (afterLoop clk run w)) = Some s' \<and> prefix (logs s) (logs s')"
  using assms by (auto simp: afterLoop_def frame)

lemma logs_loopHead:
  assumes "findSession a w = Some s"
  shows "\<exists>s'. findSession a (fst (loopHead clk i run w)) = Some s' \<and> prefix (logs s) (logs s')"
  using assms logs_afterLoop [OF assms] by (auto simp: loopHead_def frame)

lemma logs_expansionSettled:
  assumes "findSession a w = Some s"
  shows "\<exists>s'. findSession a (fst (expansionSettled clk outcome run w)) = Some s'
            \<and> prefix (logs s) (logs s')"
proof -
  define w1 where "w1 = (case outcome of Inr result \<Rightarrow> w
                         | Inl m \<Rightarrow> addLog clk (run_sessionId run)
                             (''Warning: Prompt expansion failed: '' @ m
                                @ ''. Using original prompt as fallback.'') w)"
  have "\<exists>s1. findSession a w1 = Some s1 \<and> prefix (logs s) (logs s1)"
    using assms by (cases outcome) (auto simp: w1_def frame)
  then obtain s1 where s1: "findSession a w1 = Some s1" "prefix (logs s) (logs s1)"
    by blast
  show ?thesis
  proof (cases "abortFlag w1")
    case True
    with s1 show ?thesis
      by (auto simp: expansionSettled_def Let_def w1_def)
  next
    case False
    define ps where "ps = (case outcome of Inr result \<Rightarrow> ex_prompts result
                           | Inl m \<Rightarrow> replicate (totalTarget (run_session run)) (basePrompt (run_session run)))"
    define ar where "ar = (case outcome of Inr result \<Rightarrow> ex_aspectRatio result | Inl m \<Rightarrow> ''16:9'')"
    define w4 where "w4 = addLog clk (run_sessionId run) (''Target Aspect Ratio: '' @ ar)
                (addLog clk (run_sessionId run) (''Generated '' @ show_nat (length ps) @ '' unique variations.'')
                  (updateSession (run_sessionId run) (\<lambda>s. s\<lparr> generatedPrompts := ps, progress := 15 \<rparr>) w1))"
    have "\<exists>s4. findSession a w4 = Some s4 \<and> prefix (logs s1) (logs s4)"
      using s1(1) by (auto simp: w4_def frame)
    then obtain s4 where s4: "findSession a w4 = Some s4" "prefix (logs s1) (logs s4)"
      by blast
    from logs_loopHead [OF s4(1)] obtain s' where
      s': "findSession a (fst (loopHead clk 0 (run\<lparr> run_prompts := ps, run_aspectRatio := ar \<rparr>) w4)) = Some s'"
        "prefix (logs s4) (logs s')"
      by blast
    have "expansionSettled clk outcome run w = loopHead clk 0 (run\<lparr> run_prompts := ps, run_aspectRatio := ar \<rparr>) w4"
      using False by (simp add: expansionSettled_def Let_def w1_def ps_def ar_def w4_def)
    with s' s1(2) s4(2) show ?thesis
      by (metis prefix_order.trans)
  qed
qed

lemma logs_imageSettled:
  assumes "findSession a w = Some s"
  shows "\<exists>s'. findSession a (fst (imageSettled clk net run w)) = Some s' \<and> prefix (logs s) (logs s')"
proof (cases "run_pc run")
  case (AwaitImage i prompt)
  define w1 where "w1 = (case synthesize (env_API_KEY w) run prompt net of
                   Inr base64OrUrl \<Rightarrow> handleImageResult clk (run_sessionId run) prompt i base64OrUrl w
                 | Inl m \<Rightarrow> addLog clk (run_sessionId run)
                     (''Error generating image '' @ show_nat (i + 1) @ '': '' @ m) w)"
  have "\<exists>s1. findSession a w1 = Some s1 \<and> prefix (logs s) (logs s1)"
    using assms by (cases "synthesize (env_API_KEY w) run prompt net") (auto simp: w1_def frame)
  then obtain s1 where s1: "findSession a w1 = Some s1" "prefix (logs s) (logs s1)"
    by blast
  from logs_loopHead [OF s1(1)] obtain s' where
    "findSession a (fst (loopHead clk (i + 1) run w1)) = Some s'" "prefix (logs s1) (logs s')"
    by blast
  moreover have "imageSettled clk net run w = loopHead clk (i + 1) run w1"
    using AwaitImage by (simp add: imageSettled_def Let_def w1_def)
  ultimately show ?thesis
    using s1(2) by (metis prefix_order.trans)
qed (use assms in \<open>simp_all add: imageSettled_def\<close>)

lemma logs_step:
  assumes "findSession sid (fst st) = Some s" and "foreign sid ci"
  shows "\<exists>s'. findSession sid (fst (step st ci)) = Some s' \<and> prefix (logs s) (logs s')"
proof -
  obtain w run where st: "st = (w, run)" by (cases st)
  obtain clk inp where ci: "ci = (clk, inp)" by (cases ci)
  from assms(1) st have s: "findSession sid w = Some s" by simp
  show ?thesis
  proof (cases inp)
    case (Env e)
    with assms(2) ci have "foreign sid (clk, Env e)" by simp
    from env_frame [OF this, of w] s show ?thesis
      unfolding st ci Env by auto
  next
    case (ExpansionSettles outcome)
    with logs_expansionSettled [OF s] s show ?thesis
      unfolding st ci by auto
  next
    case (ImageSettles net)
    with logs_imageSettled [OF s] show ?thesis
      unfolding st ci by auto
  qed
qed

lemma logs_drive:
  assumes "findSession sid (fst st) = Some s" and "list_all (foreign sid) inputs"
  shows "\<exists>s'. findSession sid (fst (drive st inputs)) = Some s' \<and> prefix (logs s) (logs s')"
  using assms unfolding drive_def
proof (induction inputs arbitrary: st s)
  case Nil
  then show ?case by simp
next
  case (Cons ci inputs)
  from Cons.prems have f: "foreign sid ci" and fs: "list_all (foreign sid) inputs"
    by simp_all
  from logs_step [OF Cons.prems(1) f] obtain s1 where
    s1: "findSession sid (fst (step st ci)) = Some s1" "prefix (logs s) (logs s1)"
    by blast
  from Cons.IH [OF s1(1) fs] obtain s' where
    "findSession sid (fst (foldl step (step st ci) inputs)) = Some s'" "prefix (logs s1) (logs s')"
    by blast
  with s1(2) show ?case
    by (auto intro: prefix_order.trans)
qed

lemma logs_start:
  assumes "startGeneration clk0 activeModel sid w0 = (w1, Some run0)"
  shows "\<exists>s1. findSession sid w1 = Some s1 \<and>
           logs s1 = [stamp clk0 (''Starting generation task for ''
                        @ show_nat (totalTarget (run_session run0)) @ '' images.''),
                      stamp clk0 ''Synthesizing diverse prompts & analyzing constraints...'']"
  using assms
  by (auto simp: startGeneration_def Let_def frame split: option.splits)

text \<open>
  C10, as the code has it. The start of a run replaces the log of its session: right
  after the start, and at every later point, the log begins with the two entries the
  start writes, so whatever the log held before is gone. From then on the log only
  grows: at every point of the run, the log at an earlier point is a prefix of the log at
  a later one. This covers the expansion, each item, cancellation and completion, in an
  environment that leaves the run's session to the run and to stop requests.
\<close>

theorem logs_append_only_after_start:
  assumes "runFrom clk0 activeModel sid w0 (xs @ ys) = Some (w', run')"
    and "list_all (foreign sid) (xs @ ys)"
  shows "\<exists>s0 w run s s'.
           findSession sid w0 = Some s0 \<and>
           runFrom clk0 activeModel sid w0 xs = Some (w, run) \<and>
           findSession sid w = Some s \<and> findSession sid w' = Some s' \<and>
           prefix [stamp clk0 (''Starting generation task for '' @ show_nat (totalTarget s0)
                     @ '' images.''),
                   stamp clk0 ''Synthesizing diverse prompts & analyzing constraints...'']
             (logs s) \<and>
           prefix (logs s) (logs s')"
proof -
  from assms(1) obtain w1 run0 where
    start: "startGeneration clk0 activeModel sid w0 = (w1, Some run0)" and
    drv: "drive (w1, run0) (xs @ ys) = (w', run')" and
    s0: "findSession sid w0 = Some (run_session run0)"
    by (rule runFrom_Some)
  obtain w run where mid: "drive (w1, run0) xs = (w, run)"
    by (cases "drive (w1, run0) xs")
  from start mid have rf: "runFrom clk0 activeModel sid w0 xs = Some (w, run)"
    by (simp add: runFrom_def)
  from drv mid have rest: "drive (w, run) ys = (w', run')"
    by (simp add: drive_def)
  from assms(2) have fx: "list_all (foreign sid) xs" and fy: "list_all (foreign sid) ys"
    by simp_all
  from logs_start [OF start] obtain s1 where
    s1: "findSession sid w1 = Some s1"
        "logs s1 = [stamp clk0 (''Starting generation task for ''
                        @ show_nat (totalTarget (run_session run0)) @ '' images.''),
                      stamp clk0 ''Synthesizing diverse prompts & analyzing constraints...'']"
    by blast
  from logs_drive [of sid "(w1, run0)" s1 xs] s1(1) fx mid obtain s where
    s: "findSession sid w = Some s" "prefix (logs s1) (logs s)"
    by auto
  from logs_drive [of sid "(w, run)" s ys] s(1) fy rest obtain s' where
    s': "findSession sid w' = Some s'" "prefix (logs s) (logs s')"
    by auto
  from s0 rf s s' s1(2) show ?thesis
    by auto
qed

theorem logs_append_only_after_start_witness:
  "runFrom (at 2) DEFAULT_MODEL ''1'' (oneSession 2) failingExpansion \<noteq> None \<and>
   list_all (foreign ''1'') failingExpansion \<and>
   (\<exists>s s'. sessionAfter (at 2) DEFAULT_MODEL ''1'' (oneSession 2) (take 2 failingExpansion) = Some s \<and>
      sessionAfter (at 2) DEFAULT_MODEL ''1'' (oneSession 2) failingExpansion = Some s' \<and>
      prefix (logs s) (logs s'))"
proof -
  have a: "runFrom (at 2) DEFAULT_MODEL ''1'' (oneSession 2) failingExpansion \<noteq> None"
    by code_simp
  then obtain w' run' where
    r: "runFrom (at 2) DEFAULT_MODEL ''1'' (oneSession 2)
          (take 2 failingExpansion @ drop 2 failingExpansion) = Some (w', run')"
    by auto
  have f: "list_all (foreign ''1'') (take 2 failingExpansion @ drop 2 failingExpansion)"
    by code_simp
  from logs_append_only_after_start [OF r f] r a f show ?thesis
    by (auto simp: sessionAfter_def)
qed

text \<open>
  The claim as stated fails at the start command: the entry the session was created
  with is not in the log after \<open>startGeneration\<close>.
\<close>

theorem startGeneration_clears_logs:
  "map_option logs (findSession ''1'' (oneSession 1))
     = Some [''Session initialized. Waiting to start...''] \<and>
   map_option logs (sessionAfter (at 2) DEFAULT_MODEL ''1'' (oneSession 1) [])
     = Some [''[2] Starting generation task for 1 images.'',
             ''[2] Synthesizing diverse prompts & analyzing constraints...'']"
  by code_simp

section \<open>Progress\<close>











section \<open>Failures of single items\<close>










section \<open>Failure of the prompt expansion\<close>




section \<open>Parsing the answer of the prompt expansion\<close>

lemma upto_last_None: "c \<notin> set xs \<Longrightarrow> upto_last c xs = None"
  by (induction xs) auto

lemma upto_last_append: "c \<notin> set post \<Longrightarrow> upto_last c (xs @ c # post) = Some (xs @ [c])"
  by (induction xs) (simp_all add: upto_last_None)

lemma jsonMatch_skip:
  "CHR ''{'' \<notin> set pre \<Longrightarrow> CHR ''['' \<notin> set pre \<Longrightarrow> jsonMatch (pre @ rest) = jsonMatch rest"
  by (induction pre) auto

lemma extractJson_object:
  assumes "CHR ''{'' \<notin> set pre" "CHR ''['' \<notin> set pre" "CHR ''}'' \<notin> set post"
  shows "extractJson (pre @ CHR ''{'' # mid @ CHR ''}'' # post) = CHR ''{'' # mid @ [CHR ''}'']"
  using assms by (simp add: extractJson_def jsonMatch_skip upto_last_append)

lemma extractJson_array:
  assumes "CHR ''{'' \<notin> set pre" "CHR ''['' \<notin> set pre" "CHR '']'' \<notin> set post"
  shows "extractJson (pre @ CHR ''['' # mid @ CHR '']'' # post) = CHR ''['' # mid @ [CHR '']'']"
  using assms by (simp add: extractJson_def jsonMatch_skip upto_last_append)

lemma parse_example:
  \<open>JSON_parse (extractJson exampleResponse) =
     Inr (JObject [(''prompts'', JArray [JString ''a'', JString ''b'']),
                   (''aspectRatio'', JString ''16:9'')])\<close>
  by code_simp

lemma parse_numbers:
  \<open>JSON_parse (extractJson numbersObject) =
     Inr (JObject [(''prompts'', JArray [JNumber ''1'', JNumber ''2''])])\<close>
  by code_simp

lemma generateDiversePrompts_text:
  assumes "truthy key"
  shows "generateDiversePrompts key base count refCount (TextResponse (Some (c # cs))) =
           (case JSON_parse (extractJson (c # cs)) of
              Inl m \<Rightarrow> Inl m
            | Inr result \<Rightarrow>
               (case result of
                  JNull \<Rightarrow> Inl ''Cannot read properties of null''
                | _ \<Rightarrow>
                  (case property ''prompts'' result of
                     Some (JArray ps) \<Rightarrow> Inr result
                   | _ \<Rightarrow> Inl ''Invalid prompt array in response'')))"
  using assms by (simp add: generateDiversePrompts_def)

text \<open>
  C7, as the code has it. \<open>extractJson\<close> takes the text from the first opening bracket
  through the last closing bracket of its kind: a response that wraps \<open>{ ... }\<close> in a
  leading text without \<open>{\<close> and \<open>[\<close> and a trailing text without \<open>}\<close> is cut down to
  \<open>{ ... }\<close>, and likewise for \<open>[ ... ]\<close> and a trailing text without \<open>]\<close>. For the
  response \<open>Here you go: {"prompts":["a","b"],"aspectRatio":"16:9"}\<close> the expansion
  returns the object with the prompts \<open>a\<close>, \<open>b\<close> and the aspect ratio \<open>16:9\<close>. When
  \<open>JSON.parse\<close> fails on the extracted text the call fails with that error; when the
  parsed value has no array under \<open>prompts\<close> the call fails; when it has one, the call
  returns the parsed value as it is (the elements of the array are not inspected).
\<close>

theorem prompt_expansion_parsing:
  assumes "truthy key"
  shows \<open>(CHR ''{'' \<notin> set pre \<and> CHR ''['' \<notin> set pre \<and> CHR ''}'' \<notin> set post \<longrightarrow>
            extractJson (pre @ CHR ''{'' # mid @ CHR ''}'' # post) = CHR ''{'' # mid @ [CHR ''}''])
       \<and> (CHR ''{'' \<notin> set pre \<and> CHR ''['' \<notin> set pre \<and> CHR '']'' \<notin> set post \<longrightarrow>
            extractJson (pre @ CHR ''['' # mid @ CHR '']'' # post) = CHR ''['' # mid @ [CHR '']''])
       \<and> generateDiversePrompts key base count refCount (TextResponse (Some exampleResponse))
            = Inr (JObject [(''prompts'', JArray [JString ''a'', JString ''b'']),
                            (''aspectRatio'', JString ''16:9'')])
       \<and> as_expansion (JObject [(''prompts'', JArray [JString ''a'', JString ''b'']),
                            (''aspectRatio'', JString ''16:9'')])
            = Some \<lparr> ex_prompts = [''a'', ''b''], ex_aspectRatio = ''16:9'' \<rparr>
       \<and> (JSON_parse (extractJson (c # cs)) = Inl e \<longrightarrow>
            generateDiversePrompts key base count refCount (TextResponse (Some (c # cs))) = Inl e)
       \<and> (JSON_parse (extractJson (c # cs)) = Inr v \<and> (\<forall>ps. property ''prompts'' v \<noteq> Some (JArray ps)) \<longrightarrow>
            isl (generateDiversePrompts key base count refCount (TextResponse (Some (c # cs)))))
       \<and> (JSON_parse (extractJson (c # cs)) = Inr v \<and> property ''prompts'' v = Some (JArray ps) \<longrightarrow>
            generateDiversePrompts key base count refCount (TextResponse (Some (c # cs))) = Inr v)\<close>
proof (intro conjI impI)
  show \<open>generateDiversePrompts key base count refCount (TextResponse (Some exampleResponse))
            = Inr (JObject [(''prompts'', JArray [JString ''a'', JString ''b'']),
                            (''aspectRatio'', JString ''16:9'')])\<close>
  proof -
    obtain c cs where ex: "exampleResponse = c # cs"
      by (cases exampleResponse) (simp_all add: exampleResponse_def)
    have \<open>property ''prompts'' (JObject [(''prompts'', JArray [JString ''a'', JString ''b'']),
                            (''aspectRatio'', JString ''16:9'')]) = Some (JArray [JString ''a'', JString ''b''])\<close>
      by (simp add: property_def)
    then show ?thesis
      using generateDiversePrompts_text [OF assms, of base count refCount c cs] parse_example
      unfolding ex by simp
  qed
next
  show \<open>as_expansion (JObject [(''prompts'', JArray [JString ''a'', JString ''b'']),
                            (''aspectRatio'', JString ''16:9'')])
            = Some \<lparr> ex_prompts = [''a'', ''b''], ex_aspectRatio = ''16:9'' \<rparr>\<close>
    by (simp add: as_expansion_def property_def)
next
  assume "JSON_parse (extractJson (c # cs)) = Inl e"
  then show "generateDiversePrompts key base count refCount (TextResponse (Some (c # cs))) = Inl e"
    using generateDiversePrompts_text [OF assms, of base count refCount c cs] by simp
next
  assume a: "JSON_parse (extractJson (c # cs)) = Inr v \<and> (\<forall>ps. property ''prompts'' v \<noteq> Some (JArray ps))"
  then show "isl (generateDiversePrompts key base count refCount (TextResponse (Some (c # cs))))"
    using generateDiversePrompts_text [OF assms, of base count refCount c cs]
    by (auto split: json.splits option.splits)
next
  assume a: "JSON_parse (extractJson (c # cs)) = Inr v \<and> property ''prompts'' v = Some (JArray ps)"
  then have "v \<noteq> JNull" by (auto simp: property_def)
  with a show "generateDiversePrompts key base count refCount (TextResponse (Some (c # cs))) = Inr v"
    using generateDiversePrompts_text [OF assms, of base count refCount c cs]
    by (auto split: json.splits)
qed (simp_all add: extractJson_object extractJson_array)

theorem prompt_expansion_parsing_witness:
  \<open>truthy (Some ''key'') \<and>
   CHR ''{'' \<notin> set ''Sure: '' \<and> CHR ''['' \<notin> set ''Sure: '' \<and> CHR ''}'' \<notin> set '' ok'' \<and>
   extractJson (''Sure: '' @ CHR ''{'' # ''"n":1'' @ CHR ''}'' # '' ok'')
     = CHR ''{'' # ''"n":1'' @ [CHR ''}''] \<and>
   JSON_parse (extractJson ''oops'') = Inl ''Unexpected token in JSON'' \<and>
   generateDiversePrompts (Some ''key'') ''a cat'' 2 0 (TextResponse (Some ''oops''))
     = Inl ''Unexpected token in JSON'' \<and>
   JSON_parse (extractJson ''[1]'') = Inr (JArray [JNumber ''1'']) \<and>
   isl (generateDiversePrompts (Some ''key'') ''a cat'' 2 0 (TextResponse (Some ''[1]''))) \<and>
   generateDiversePrompts (Some ''key'') ''a cat'' 2 0 (TextResponse (Some numbersObject))
     = Inr (JObject [(''prompts'', JArray [JNumber ''1'', JNumber ''2''])])\<close>
proof -
  have k: "truthy (Some ''key'')"
    by simp
  have b: \<open>CHR ''{'' \<notin> set ''Sure: '' \<and> CHR ''['' \<notin> set ''Sure: '' \<and> CHR ''}'' \<notin> set '' ok''\<close>
    by simp
  have p1: "JSON_parse (extractJson ''oops'') = Inl ''Unexpected token in JSON''"
    by code_simp
  have p2: "JSON_parse (extractJson ''[1]'') = Inr (JArray [JNumber ''1''])"
    by code_simp
  have n2: "\<forall>ps. property ''prompts'' (JArray [JNumber ''1'']) \<noteq> Some (JArray ps)"
    by (simp add: property_def)
  obtain c cs where n: "numbersObject = c # cs"
    by (cases numbersObject) (simp_all add: numbersObject_def)
  have p3: "property ''prompts'' (JObject [(''prompts'', JArray [JNumber ''1'', JNumber ''2''])])
              = Some (JArray [JNumber ''1'', JNumber ''2''])"
    by (simp add: property_def)
  from prompt_expansion_parsing [OF k, where pre = "''Sure: ''" and post = "'' ok''"
         and mid = \<open>''"n":1''\<close>] b
  have w1: \<open>extractJson (''Sure: '' @ CHR ''{'' # ''"n":1'' @ CHR ''}'' # '' ok'')
     = CHR ''{'' # ''"n":1'' @ [CHR ''}'']\<close>
    by blast
  from prompt_expansion_parsing [OF k, where c = "CHR ''o''" and cs = "''ops''"
         and e = "''Unexpected token in JSON''" and base = "''a cat''" and count = 2
         and refCount = 0] p1
  have w2: "generateDiversePrompts (Some ''key'') ''a cat'' 2 0 (TextResponse (Some ''oops''))
     = Inl ''Unexpected token in JSON''"
    by simp
  from prompt_expansion_parsing [OF k, where c = "CHR ''[''" and cs = "''1]''"
         and v = "JArray [JNumber ''1'']" and base = "''a cat''" and count = 2
         and refCount = 0] p2 n2
  have w3: "isl (generateDiversePrompts (Some ''key'') ''a cat'' 2 0 (TextResponse (Some ''[1]'')))"
    by simp
  from prompt_expansion_parsing [OF k, where c = c and cs = cs
         and v = "JObject [(''prompts'', JArray [JNumber ''1'', JNumber ''2''])]"
         and ps = "[JNumber ''1'', JNumber ''2'']" and base = "''a cat''" and count = 2
         and refCount = 0] parse_numbers p3 n
  have w4: "generateDiversePrompts (Some ''key'') ''a cat'' 2 0 (TextResponse (Some numbersObject))
     = Inr (JObject [(''prompts'', JArray [JNumber ''1'', JNumber ''2''])])"
    by simp
  from k b w1 p1 w2 p2 w3 w4 show ?thesis
    by blast
qed

text \<open>
  The claim as stated fails: a well-formed object followed by a text that contains a
  closing brace is not extracted, the whole response is, and the call fails.
\<close>

theorem extractJson_takes_too_much:
  \<open>JSON_parse exampleObject
     = Inr (JObject [(''prompts'', JArray [JString ''a'']), (''aspectRatio'', JString ''16:9'')]) \<and>
   extractJson (exampleObject @ '' :-}'') = exampleObject @ '' :-}'' \<and>
   generateDiversePrompts (Some ''key'') ''a cat'' 1 0 (TextResponse (Some (exampleObject @ '' :-}'')))
     = Inl ''Unexpected token in JSON''\<close>
  by code_simp

section \<open>Cancellation\<close>

text \<open>
  What a stop request does to a run when the flag still stands at the run's next
  checkpoint: the run returns, with one more image at most, and the images it had are
  kept.
\<close>

lemma cancel_before_loop:
  assumes "run_pc run = AwaitExpansion" and "abortFlag w"
    and "findSession (run_sessionId run) w = Some s"
  shows "run_pc (snd (step (w, run) (clk, ExpansionSettles outcome))) = Returned \<and>
         (\<exists>s'. findSession (run_sessionId run) (fst (step (w, run) (clk, ExpansionSettles outcome)))
                  = Some s' \<and>
               status s' = status s \<and> generatedImages s' = generatedImages s)"
  using assms by (cases outcome) (simp_all add: expansionSettled_def Let_def frame)

lemma cancel_during_item:
  assumes "run_pc run = AwaitImage i prompt" and "abortFlag w"
    and "findSession (run_sessionId run) w = Some s"
  shows "run_pc (snd (step (w, run) (clk, ImageSettles net))) = Returned \<and>
         (\<exists>s'. findSession (run_sessionId run) (fst (step (w, run) (clk, ImageSettles net)))
                  = Some s' \<and>
               status s' = Stopped \<and>
               prefix (generatedImages s) (generatedImages s') \<and>
               length (generatedImages s') \<le> length (generatedImages s) + 1)"
proof -
  define w1 where "w1 = (case synthesize (env_API_KEY w) run prompt net of
                   Inr base64OrUrl \<Rightarrow>
                     handleImageResult clk (run_sessionId run) prompt i base64OrUrl w
                 | Inl m \<Rightarrow> addLog clk (run_sessionId run)
                     (''Error generating image '' @ show_nat (i + 1) @ '': '' @ m) w)"
  have seq: "step (w, run) (clk, ImageSettles net) = loopHead clk (i + 1) run w1"
    using assms(1) by (simp add: imageSettled_def Let_def w1_def)
  have f1: "abortFlag w1"
    using assms(2) by (cases "synthesize (env_API_KEY w) run prompt net") (simp_all add: w1_def frame)
  have "\<exists>s1. findSession (run_sessionId run) w1 = Some s1 \<and>
            prefix (generatedImages s) (generatedImages s1) \<and>
            length (generatedImages s1) \<le> length (generatedImages s) + 1"
    using assms(3) by (cases "synthesize (env_API_KEY w) run prompt net") (simp_all add: w1_def frame)
  then obtain s1 where "findSession (run_sessionId run) w1 = Some s1"
      "prefix (generatedImages s) (generatedImages s1)"
      "length (generatedImages s1) \<le> length (generatedImages s) + 1"
    by blast
  with f1 show ?thesis
    unfolding seq by (simp add: loopHead_def afterLoop_def frame)
qed

text \<open>
  C5 fails on the code. The flag a stop request sets is the one flag of the
  application, and the start of any run clears it. In \<open>stopThenNewRun\<close> the user stops
  session \<open>''1''\<close> while its first item is in flight (the status becomes \<open>stopped\<close>), and
  the run of a new session starts before that item settles: the run of session \<open>''1''\<close>
  then starts its second item, synthesizes both images and sets the status to
  \<open>completed\<close>.
\<close>

theorem cancelled_run_completes_after_new_run_starts:
  "map_option status (sessionAfter (at 2) DEFAULT_MODEL ''1'' (oneSession 2) (take 2 stopThenNewRun))
     = Some Stopped \<and>
   pcAfter (at 2) DEFAULT_MODEL ''1'' (oneSession 2) (take 2 stopThenNewRun)
     = Some (AwaitImage 0 ''p1'') \<and>
   pcAfter (at 2) DEFAULT_MODEL ''1'' (oneSession 2) (take 5 stopThenNewRun)
     = Some (AwaitImage 1 ''p2'') \<and>
   pcAfter (at 2) DEFAULT_MODEL ''1'' (oneSession 2) stopThenNewRun = Some Returned \<and>
   map_option status (sessionAfter (at 2) DEFAULT_MODEL ''1'' (oneSession 2) stopThenNewRun)
     = Some Completed \<and>
   map_option (length \<circ> generatedImages)
     (sessionAfter (at 2) DEFAULT_MODEL ''1'' (oneSession 2) stopThenNewRun) = Some 2"
  by code_simp

text \<open>
  C6 fails on the code, by the same flag. The inputs \<open>quietNeighbour\<close> and
  \<open>stoppedNeighbour\<close> of the run of session \<open>''1''\<close> differ in one event only, a stop
  request for session \<open>''5''\<close>; every event of both concerns session \<open>''5''\<close> alone.
  Without the stop request the run of session \<open>''1''\<close> completes with two images, with
  it the run stops with one.
\<close>

theorem stop_of_one_session_stops_the_other:
  "list_all (foreign ''1'') stoppedNeighbour \<and>
   map_option status (sessionAfter (at 2) DEFAULT_MODEL ''1'' (oneSession 2) quietNeighbour)
     = Some Completed \<and>
   map_option (length \<circ> generatedImages)
     (sessionAfter (at 2) DEFAULT_MODEL ''1'' (oneSession 2) quietNeighbour) = Some 2 \<and>
   map_option status (sessionAfter (at 2) DEFAULT_MODEL ''1'' (oneSession 2) stoppedNeighbour)
     = Some Stopped \<and>
   map_option (length \<circ> generatedImages)
     (sessionAfter (at 2) DEFAULT_MODEL ''1'' (oneSession 2) stoppedNeighbour) = Some 1"
  by code_simp


end
